theory Spec2Isabelle
  imports Main "HOL-Library.Word" "HOL-Library.Sublist" "HOL-Library.Char_ord"
    "HOL-Library.List_Lexorder" "HOL-Library.Multiset"
begin

section \<open>logme-cli: the migration runner and its command glue\<close>

text \<open>
  \<^verbatim>\<open>logme.go\<close> holds two revisions of the program, one after the other. The model follows
  the later one, which adds the fallback variable \<^verbatim>\<open>DB_LOCAL_ADDR\<close> and the commands
  \<^verbatim>\<open>up\<close>, \<^verbatim>\<open>down\<close>, \<^verbatim>\<open>list\<close> and \<^verbatim>\<open>test\<close>; \<^verbatim>\<open>createMigrationsTable\<close> and
  \<^verbatim>\<open>runMigrations\<close> are the same in both.

  The program talks to collaborators: the \<^verbatim>\<open>.env\<close> loader, the file system, a ClickHouse
  connection, a shell and the clock. Each call that acts on one of them is recorded as an
  \<open>event\<close>; the list of events issued so far is the \<open>trace\<close>. What a collaborator
  answers is not fixed by the program, so the answers are taken from a \<open>world\<close>: a record
  of functions that map the trace so far (and the arguments of the call) to the answer, the
  trace being the one before the call. The process environment is a map from names to
  values. Every function of the program takes the trace and returns the extended one
  together with its Go result.
\<close>

subsection \<open>Values of the Go program\<close>

text \<open>
  A Go \<^verbatim>\<open>error\<close> value. The program distinguishes one error, \<^verbatim>\<open>sql.ErrNoRows\<close> (through
  \<^verbatim>\<open>errors.Is\<close>), and the command-line library distinguishes the errors that carry an exit
  code (\<^verbatim>\<open>cli.ExitCoder\<close>): the \<^verbatim>\<open>*exec.ExitError\<close> of a shelled-out command that ran and
  failed is one, with the exit code of the command and the message of its process state.
  Every other error is carried with its message.
\<close>

datatype error = ErrNoRows | ErrorString string | ExitError int string

fun error_Error :: "error \<Rightarrow> string" where
  "error_Error ErrNoRows = ''sql: no rows in result set''"
| "error_Error (ErrorString s) = s"
| "error_Error (ExitError code s) = s"

text \<open>What a function of type \<^verbatim>\<open>func(...) error\<close> does: return nil, return an error, or panic.\<close>

datatype outcome = Ok | Failed error | Panicked string

text \<open>
  The answer of \<^verbatim>\<open>db.QueryRow(ctx, q).Scan(&dest)\<close>: a scanned value, or an error. On an
  error the destination keeps the zero value it was declared with.
\<close>

datatype 'a scan = Scanned 'a | ScanFailed error

text \<open>\<^verbatim>\<open>fs.FileInfo\<close>, as far as the program reads it.\<close>

record file_info =
  Name :: string
  IsDir :: bool

text \<open>\<^verbatim>\<open>clickhouse.Options\<close>, as far as the program fills it.\<close>

record auth =
  Database :: string
  Username :: string
  Password :: string

datatype compression = CompressionLZ4

record options =
  Addr :: "string list"
  Auth :: auth
  Compression :: compression
  Settings :: "(string \<times> int) list"

datatype event =
    DotenvLoad
  | Open options
  | QueryRow string
  | Exec string
  | AsyncInsert string bool
  | ReadDir string
  | ReadFile string
  | Command "string list"
  | Stdout string
  | Stderr string
  | LogFatal string

type_synonym trace = "event list"

type_synonym environ = "string \<rightharpoonup> string"

record world =
  godotenv_Load :: "error + environ"
  clickhouse_Open :: "trace \<Rightarrow> options \<Rightarrow> error option"
  db_Scan_string :: "options \<Rightarrow> trace \<Rightarrow> string \<Rightarrow> string scan"
  db_Scan_uint8 :: "options \<Rightarrow> trace \<Rightarrow> string \<Rightarrow> 8 word scan"
  db_Exec :: "options \<Rightarrow> trace \<Rightarrow> string \<Rightarrow> error option"
  db_AsyncInsert :: "options \<Rightarrow> trace \<Rightarrow> string \<Rightarrow> bool \<Rightarrow> error option"
  os_Readdir :: "trace \<Rightarrow> string \<Rightarrow> error + file_info list"
  os_ReadFile :: "trace \<Rightarrow> string \<Rightarrow> error + string"
  time_Now_Unix :: "trace \<Rightarrow> int"
  exec_Output :: "trace \<Rightarrow> string list \<Rightarrow> string \<times> error option"

subsection \<open>Library functions the program calls\<close>

text \<open>\<^verbatim>\<open>os.Getenv\<close>: the value of the variable, the empty string when it is not present.\<close>

definition os_Getenv :: "environ \<Rightarrow> string \<Rightarrow> string" where
  "os_Getenv env k = (case env k of None \<Rightarrow> [] | Some v \<Rightarrow> v)"

text \<open>
  \<^verbatim>\<open>strings.HasSuffix(s, suffix)\<close>:
  \<^verbatim>\<open>len(s) >= len(suffix) && s[len(s)-len(suffix):] == suffix\<close>.
\<close>

definition strings_HasSuffix :: "string \<Rightarrow> string \<Rightarrow> bool" where
  "strings_HasSuffix s suf \<longleftrightarrow>
     length suf \<le> length s \<and> drop (length s - length suf) s = suf"

text \<open>The verb \<^verbatim>\<open>%d\<close> of \<^verbatim>\<open>fmt.Sprintf\<close> on an integer: decimal digits, a minus sign first when negative.\<close>

definition digit_char :: "nat \<Rightarrow> char" where
  "digit_char d = ''0123456789'' ! d"

fun show_nat :: "nat \<Rightarrow> string" where
  "show_nat n = (if n < 10 then [digit_char n] else show_nat (n div 10) @ [digit_char (n mod 10)])"

declare show_nat.simps [simp del]

definition show_int :: "int \<Rightarrow> string" where
  "show_int i = (if i < 0 then CHR ''-'' # show_nat (nat (- i)) else show_nat (nat i))"

text \<open>
  \<^verbatim>\<open>ioutil.ReadDir(dirname)\<close>: the entries of the directory, sorted by filename (the
  standard library sorts what the operating system lists, comparing names bytewise).
\<close>

definition ioutil_ReadDir :: "world \<Rightarrow> trace \<Rightarrow> string \<Rightarrow> error + file_info list" where
  "ioutil_ReadDir w tr dirname =
     (case os_Readdir w tr dirname of
        Inl e \<Rightarrow> Inl e
      | Inr entries \<Rightarrow> Inr (sort_key Name entries))"

subsection \<open>Text constants of the program\<close>

definition newline :: char where
  "newline = CHR 0x0A"

definition tab :: char where
  "tab = CHR 0x09"

definition quote :: char where
  "quote = CHR 0x27"

definition dquote :: char where
  "dquote = CHR 0x22"

definition migrationDir :: string where
  "migrationDir = ''internal/logme/migrations/''"

text \<open>\<^verbatim>\<open>"SHOW TABLES LIKE 'migrations'"\<close>\<close>

definition showTables_sql :: string where
  "showTables_sql = ''SHOW TABLES LIKE '' @ [quote] @ ''migrations'' @ [quote]"

text \<open>
  The raw string literal of \<^verbatim>\<open>createMigrationsTable\<close>, line by line, with its tabs. The
  ledger has the columns \<^verbatim>\<open>name\<close> and \<^verbatim>\<open>dt\<close> (the time of application) and is ordered by
  \<^verbatim>\<open>(name, dt)\<close>.
\<close>

definition createTable_sql :: string where
  "createTable_sql =
     [newline]
     @ [tab, tab] @ ''CREATE TABLE IF NOT EXISTS migrations ('' @ [newline]
     @ [tab, tab, tab] @ ''name       String,'' @ [newline]
     @ [tab, tab, tab] @ ''dt         DateTime'' @ [newline]
     @ [tab, tab] @ '') engine=MergeTree() ORDER BY (name, dt)'' @ [newline]
     @ [tab]"

text \<open>\<^verbatim>\<open>fmt.Sprintf("SELECT 1 FROM migrations WHERE name = '%s'", name)\<close>\<close>

definition hasRun_sql :: "string \<Rightarrow> string" where
  "hasRun_sql name = ''SELECT 1 FROM migrations WHERE name = '' @ [quote] @ name @ [quote]"

text \<open>\<^verbatim>\<open>fmt.Sprintf(`INSERT INTO migrations (name, dt) VALUES ('%s', %d)`, name, t)\<close>\<close>

definition insert_sql :: "string \<Rightarrow> int \<Rightarrow> string" where
  "insert_sql name t =
     ''INSERT INTO migrations (name, dt) VALUES ('' @ [quote] @ name @ [quote] @ '', ''
     @ show_int t @ '')''"

definition config_error :: error where
  "config_error =
     ErrorString ''environment variable DB_ADDR or DB_LOCAL_ADDR required for migrations''"

subsection \<open>Reading the result of a scan\<close>

text \<open>The destination variable after \<^verbatim>\<open>Scan(&dest)\<close>, given its zero value.\<close>

fun scan_dest :: "'a \<Rightarrow> 'a scan \<Rightarrow> 'a" where
  "scan_dest zero (Scanned v) = v"
| "scan_dest zero (ScanFailed err) = zero"

text \<open>\<^verbatim>\<open>errors.Is(err, target)\<close> on the errors of this model.\<close>

definition errors_Is :: "error \<Rightarrow> error \<Rightarrow> bool" where
  "errors_Is err target \<longleftrightarrow> err = target"

text \<open>
  The guard both lookups share:
  \<^verbatim>\<open>if err := ...Scan(&exists); err != nil { if !errors.Is(err, sql.ErrNoRows) { ... } }\<close>.
  The result is the error with which the inner branch is entered, if it is.
\<close>

fun unknown_error :: "'a scan \<Rightarrow> error option" where
  "unknown_error (Scanned v) = None"
| "unknown_error (ScanFailed err) = (if \<not> errors_Is err ErrNoRows then Some err else None)"

subsection \<open>The functions of the program\<close>

definition getDbConn :: "world \<Rightarrow> environ \<Rightarrow> trace \<Rightarrow> bool \<Rightarrow> trace \<times> (error + options)" where
  "getDbConn w env tr isTest =
     (let localAddr = os_Getenv env ''DB_LOCAL_ADDR'';
          addr0 = os_Getenv env ''DB_ADDR'';
          addr = (if addr0 = [] then localAddr else addr0)
      in if addr = [] then (tr, Inl config_error)
         else
           let dbName0 = os_Getenv env ''DB_NAME'';
               dbName = (if dbName0 = [] then ''logme'' else dbName0);
               dbSuffix = (if isTest then ''_test'' else []);
               auth0 = \<lparr>Database = dbName @ dbSuffix, Username = [], Password = []\<rparr>;
               user = os_Getenv env ''DB_USER'';
               auth1 = (if user \<noteq> [] then auth0\<lparr>Username := user\<rparr> else auth0);
               pass = os_Getenv env ''DB_PASS'';
               auth2 = (if pass \<noteq> [] then auth1\<lparr>Password := pass\<rparr> else auth1);
               opts = \<lparr>Addr = [addr], Auth = auth2, Compression = CompressionLZ4,
                        Settings = [(''max_execution_time'', 60)]\<rparr>
           in case clickhouse_Open w tr opts of
                Some err \<Rightarrow> (tr @ [Open opts], Inl err)
              | None \<Rightarrow> (tr @ [Open opts], Inr opts))"

definition createMigrationsTable :: "world \<Rightarrow> options \<Rightarrow> trace \<Rightarrow> trace \<times> outcome" where
  "createMigrationsTable w db tr =
     (let sqlExists = showTables_sql;
          r = db_Scan_string w db tr sqlExists;
          tr1 = tr @ [QueryRow sqlExists];
          exists = scan_dest [] r
      in case unknown_error r of
           Some err \<Rightarrow> (tr1, Panicked (error_Error err))
         | None \<Rightarrow>
             if exists \<noteq> [] then (tr1, Ok)
             else
               (case db_Exec w db tr1 createTable_sql of
                  Some err \<Rightarrow> (tr1 @ [Exec createTable_sql], Failed err)
                | None \<Rightarrow> (tr1 @ [Exec createTable_sql], Ok)))"

text \<open>
  One iteration of the loop of \<^verbatim>\<open>runMigrations\<close>, on the entry \<open>file\<close> with the trace
  \<open>tr\<close> so far. It yields the events of the iteration and \<open>Some err\<close> when the iteration ends in
  \<^verbatim>\<open>return err\<close>, \<open>None\<close> when the loop goes on (a \<^verbatim>\<open>continue\<close> or the end of the body).
\<close>

definition runMigrations_body ::
  "world \<Rightarrow> options \<Rightarrow> trace \<Rightarrow> file_info \<Rightarrow> event list \<times> error option" where
  "runMigrations_body w db tr file =
     (if IsDir file then ([], None)
      else if \<not> strings_HasSuffix (Name file) ''.sql'' then ([], None)
      else
        let sqlExists = hasRun_sql (Name file);
            r = db_Scan_uint8 w db tr sqlExists;
            es1 = [QueryRow sqlExists];
            exists = scan_dest 0 r
        in (case unknown_error r of
              Some err \<Rightarrow> (es1, Some err)
            | None \<Rightarrow>
                (if exists = 1 then (es1, None)
                 else
                   let path = migrationDir @ Name file;
                       es2 = es1 @ [ReadFile path]
                   in (case os_ReadFile w (tr @ es1) path of
                         Inl err \<Rightarrow> (es2, Some err)
                       | Inr content \<Rightarrow>
                           (let es3 = es2 @ [Exec content]
                            in (case db_Exec w db (tr @ es2) content of
                                  Some err \<Rightarrow> (es3, Some err)
                                | None \<Rightarrow>
                                    (let q = insert_sql (Name file)
                                               (time_Now_Unix w (tr @ es3));
                                         es4 = es3 @ [AsyncInsert q False]
                                     in (case db_AsyncInsert w db (tr @ es3) q False of
                                           Some err \<Rightarrow> (es4, Some err)
                                         | None \<Rightarrow>
                                             (es4 @ [Stdout (''Successfully migrated: ''
                                                       @ Name file @ [newline])],
                                              None)))))))))"

text \<open>
  The loop \<^verbatim>\<open>for _, file := range files\<close>. It keeps, per iteration, the entry and the events
  of that iteration, in the order of the iterations; the trace of the loop is their
  concatenation. It stops at the first iteration that returns an error.
\<close>

fun runMigrations_loop ::
  "world \<Rightarrow> options \<Rightarrow> trace \<Rightarrow> file_info list \<Rightarrow> (file_info \<times> event list) list \<times> error option" where
  "runMigrations_loop w db tr [] = ([], None)"
| "runMigrations_loop w db tr (file # files) =
     (case runMigrations_body w db tr file of
        (es, Some err) \<Rightarrow> ([(file, es)], Some err)
      | (es, None) \<Rightarrow>
          (case runMigrations_loop w db (tr @ es) files of
             (steps, res) \<Rightarrow> ((file, es) # steps, res)))"

definition events_of :: "(file_info \<times> event list) list \<Rightarrow> event list" where
  "events_of steps = concat (map snd steps)"

definition runMigrations :: "world \<Rightarrow> options \<Rightarrow> trace \<Rightarrow> trace \<times> outcome" where
  "runMigrations w db tr =
     (let tr1 = tr @ [ReadDir migrationDir]
      in case ioutil_ReadDir w tr migrationDir of
           Inl err \<Rightarrow> (tr1, Failed err)
         | Inr files \<Rightarrow>
             (case runMigrations_loop w db tr1 files of
                (steps, Some err) \<Rightarrow> (tr1 @ events_of steps, Failed err)
              | (steps, None) \<Rightarrow> (tr1 @ events_of steps, Ok)))"

definition migrate :: "world \<Rightarrow> environ \<Rightarrow> trace \<Rightarrow> bool \<Rightarrow> trace \<times> outcome" where
  "migrate w env tr isTest =
     (case getDbConn w env tr isTest of
        (tr1, Inl err) \<Rightarrow> (tr1, Failed err)
      | (tr1, Inr db) \<Rightarrow>
          (case createMigrationsTable w db tr1 of
             (tr2, Ok) \<Rightarrow> runMigrations w db tr2
           | (tr2, res) \<Rightarrow> (tr2, res)))"

text \<open>
  The four pass-through commands. \<^verbatim>\<open>exec.Command(...).Output()\<close> yields the captured
  standard output and an error (both, when the command ran and failed).
\<close>

definition up_argv :: "string list" where
  "up_argv = [''/bin/sh'', ''-c'', ''docker-compose up'', ''-d'']"

definition down_argv :: "string list" where
  "down_argv = [''/bin/sh'', ''-c'', ''docker-compose down'']"

definition list_argv :: "string list" where
  "list_argv = [''/bin/sh'', ''-c'',
     ''docker ps --format '' @ [dquote] @ ''table {{.ID}}'' @ [tab] @ ''{{.Names}}'' @ [tab]
     @ ''{{.State}}'' @ [tab] @ ''{{.Ports}}'' @ [dquote]]"

definition test_argv :: "string list" where
  "test_argv = [''/bin/sh'', ''-c'', ''docker exec -i logme_server /usr/local/go/bin/go test'']"

definition up :: "world \<Rightarrow> trace \<Rightarrow> trace \<times> outcome" where
  "up w tr =
     (case exec_Output w tr up_argv of
        (out, Some err) \<Rightarrow> (tr @ [Command up_argv], Failed err)
      | (out, None) \<Rightarrow> (tr @ [Command up_argv, Stdout (out @ [newline])], Ok))"

definition down :: "world \<Rightarrow> trace \<Rightarrow> trace \<times> outcome" where
  "down w tr =
     (case exec_Output w tr down_argv of
        (out, Some err) \<Rightarrow> (tr @ [Command down_argv], Failed err)
      | (out, None) \<Rightarrow> (tr @ [Command down_argv, Stdout (out @ [newline])], Ok))"

definition list_cmd :: "world \<Rightarrow> trace \<Rightarrow> trace \<times> outcome" where
  "list_cmd w tr =
     (case exec_Output w tr list_argv of
        (out, Some err) \<Rightarrow> (tr @ [Command list_argv], Failed err)
      | (out, None) \<Rightarrow> (tr @ [Command list_argv, Stdout (out @ [newline])], Ok))"

definition test :: "world \<Rightarrow> trace \<Rightarrow> trace \<times> outcome" where
  "test w tr =
     (case exec_Output w tr test_argv of
        (out, _) \<Rightarrow> (tr @ [Command test_argv, Stdout (out @ [newline])], Ok))"

text \<open>
  \<^verbatim>\<open>main\<close>. The command-line library picks the subcommand from \<^verbatim>\<open>os.Args\<close> by name or
  alias and runs its action; \<open>command\<close> is the subcommand picked. \<^verbatim>\<open>godotenv.Load\<close> reads
  \<^verbatim>\<open>.env\<close> in the working directory and sets the variables that the environment does not
  have yet. \<^verbatim>\<open>log.Fatal\<close> writes its message and exits with status 1; a panic that nothing
  recovers ends the process.

  When the action returns an error that carries an exit code, \<^verbatim>\<open>app.Run\<close> does not return:
  the library (\<^verbatim>\<open>cli.HandleExitCoder\<close>) writes the message of the error, when it has one, to
  the standard error and exits with that code, so \<^verbatim>\<open>log.Fatal\<close> is not reached. Any other
  error comes back from \<^verbatim>\<open>app.Run\<close> and goes to \<^verbatim>\<open>log.Fatal\<close>.
\<close>

datatype command = Migrate | MigrateTest | Up | Down | List | Test

datatype exit = Exit int | Crash string

fun action :: "world \<Rightarrow> environ \<Rightarrow> trace \<Rightarrow> command \<Rightarrow> trace \<times> outcome" where
  "action w env tr Migrate = migrate w env tr False"
| "action w env tr MigrateTest = migrate w env tr True"
| "action w env tr Up = up w tr"
| "action w env tr Down = down w tr"
| "action w env tr List = list_cmd w tr"
| "action w env tr Test = test w tr"

definition main :: "world \<Rightarrow> environ \<Rightarrow> command \<Rightarrow> trace \<times> exit" where
  "main w env cmd =
     (case godotenv_Load w of
        Inl err \<Rightarrow> ([DotenvLoad, LogFatal ''Error loading .env file''], Exit 1)
      | Inr vars \<Rightarrow>
          (case action w (vars ++ env) [DotenvLoad] cmd of
             (tr, Ok) \<Rightarrow> (tr, Exit 0)
           | (tr, Failed (ExitError code msg)) \<Rightarrow>
               (if msg \<noteq> [] then tr @ [Stderr (msg @ [newline])] else tr, Exit code)
           | (tr, Failed err) \<Rightarrow> (tr @ [LogFatal (error_Error err)], Exit 1)
           | (tr, Panicked msg) \<Rightarrow> (tr, Crash msg)))"

subsection \<open>Attributing events to directory entries\<close>

text \<open>
  The events that a run of the loop issued in the iterations on entries named \<open>name\<close>, in the
  order of issue. Names in one directory are distinct, so this is one iteration's events.
\<close>

definition events_for :: "string \<Rightarrow> (file_info \<times> event list) list \<Rightarrow> event list" where
  "events_for name steps = concat (map snd (filter (\<lambda>s. Name (fst s) = name) steps))"

text \<open>The statements executed and the asynchronous inserts issued among some events.\<close>

definition execs :: "event list \<Rightarrow> string list" where
  "execs es = [q. Exec q \<leftarrow> es]"

definition inserts :: "event list \<Rightarrow> (string \<times> bool) list" where
  "inserts es = [(q, wait). AsyncInsert q wait \<leftarrow> es]"

subsection \<open>The processing of one entry, in the words of the specification\<close>

text \<open>
  What the specification asks of the runner for one directory entry, from the trace \<open>h\<close> at
  which the entry is taken up, when nothing fails: a subdirectory or a file without the
  extension \<^verbatim>\<open>.sql\<close> is skipped; for a candidate the ledger is asked whether the file has
  run, and if it has there is nothing more; else the content is read, executed as it is,
  recorded in the ledger under the file name with the current Unix time, and the success
  is notified. The texts are written out here and not taken from the definitions above.
\<close>

definition spec_processing :: "world \<Rightarrow> options \<Rightarrow> trace \<Rightarrow> file_info \<Rightarrow> event list" where
  "spec_processing w db h f =
     (let lookup = ''SELECT 1 FROM migrations WHERE name = '' @ [CHR 0x27] @ Name f @ [CHR 0x27];
          path = ''internal/logme/migrations/'' @ Name f
      in if IsDir f \<or> \<not> suffix ''.sql'' (Name f) then []
         else if db_Scan_uint8 w db h lookup = Scanned 1 then [QueryRow lookup]
         else
           let content = (case os_ReadFile w (h @ [QueryRow lookup]) path of
                            Inr c \<Rightarrow> c | Inl e \<Rightarrow> []);
               now = time_Now_Unix w (h @ [QueryRow lookup, ReadFile path, Exec content]);
               record = ''INSERT INTO migrations (name, dt) VALUES ('' @ [CHR 0x27] @ Name f
                          @ [CHR 0x27] @ '', '' @ show_int now @ '')''
           in [QueryRow lookup, ReadFile path, Exec content, AsyncInsert record False,
               Stdout (''Successfully migrated: '' @ Name f @ [CHR 0x0A])])"

subsection \<open>A sample run\<close>

text \<open>
  A migration directory as the operating system lists it, and a world for it: the ledger
  table exists and holds a record for \<^verbatim>\<open>001_init.sql\<close> only, the statement of
  \<^verbatim>\<open>003_broken.sql\<close> is rejected by the store, everything else succeeds.
\<close>

definition sample_entries :: "file_info list" where
  "sample_entries =
     [\<lparr>Name = ''notes.txt'', IsDir = False\<rparr>,
      \<lparr>Name = ''002_add_index.sql'', IsDir = False\<rparr>,
      \<lparr>Name = ''archive.sql'', IsDir = True\<rparr>,
      \<lparr>Name = ''001_init.sql'', IsDir = False\<rparr>,
      \<lparr>Name = ''004_later.sql'', IsDir = False\<rparr>,
      \<lparr>Name = ''003_broken.sql'', IsDir = False\<rparr>]"

definition sample_content :: "string \<Rightarrow> string" where
  "sample_content path =
     (if path = migrationDir @ ''003_broken.sql'' then ''CREATE TABEL t''
      else if path = migrationDir @ ''004_later.sql'' then ''ALTER TABLE logs DROP INDEX i''
      else ''ALTER TABLE logs ADD INDEX i (level) TYPE set(8) GRANULARITY 1'')"

definition sample_world :: world where
  "sample_world =
     \<lparr>godotenv_Load = Inr (\<lambda>k. if k = ''DB_LOCAL_ADDR'' then Some ''localhost:9000'' else None),
      clickhouse_Open = (\<lambda>tr opts. None),
      db_Scan_string = (\<lambda>db tr q. Scanned ''migrations''),
      db_Scan_uint8 = (\<lambda>db tr q.
         if q = hasRun_sql ''001_init.sql'' then Scanned 1 else ScanFailed ErrNoRows),
      db_Exec = (\<lambda>db tr q.
         if q = ''CREATE TABEL t'' then Some (ErrorString ''code: 62, syntax error'') else None),
      db_AsyncInsert = (\<lambda>db tr q wait. None),
      os_Readdir = (\<lambda>tr dir. Inr sample_entries),
      os_ReadFile = (\<lambda>tr path. Inr (sample_content path)),
      time_Now_Unix = (\<lambda>tr. 1700000000),
      exec_Output = (\<lambda>tr argv. (''logme_server'', Some (ExitError 1 ''exit status 1'')))\<rparr>"

definition sample_db :: options where
  "sample_db =
     \<lparr>Addr = [''localhost:9000''],
      Auth = \<lparr>Database = ''logme'', Username = [], Password = []\<rparr>,
      Compression = CompressionLZ4,
      Settings = [(''max_execution_time'', 60)]\<rparr>"



definition sample_env :: environ where
  "sample_env = [''DB_ADDR'' \<mapsto> ''localhost:9000'']"

text \<open>The sample world with a store that accepts every statement.\<close>

definition good_world :: world where
  "good_world = sample_world\<lparr>db_Exec := (\<lambda>db tr q. None)\<rparr>"

text \<open>The sample world started in a directory without a \<^verbatim>\<open>.env\<close> file.\<close>

definition no_dotenv_world :: world where
  "no_dotenv_world =
     sample_world\<lparr>godotenv_Load := Inl (ErrorString ''open .env: no such file or directory'')\<rparr>"

text \<open>The sample directory on a store where no migration has been recorded yet.\<close>

definition first_run_world :: world where
  "first_run_world = good_world\<lparr>db_Scan_uint8 := (\<lambda>db tr q. ScanFailed ErrNoRows)\<rparr>"

section \<open>Facts about the loop\<close>

lemma loop_Cons_None:
  "runMigrations_body w db tr f = (es, None) \<Longrightarrow>
     runMigrations_loop w db tr (f # fs) =
       ((f, es) # fst (runMigrations_loop w db (tr @ es) fs),
        snd (runMigrations_loop w db (tr @ es) fs))"
  by (simp split: prod.splits)

lemma loop_Cons_Some:
  "runMigrations_body w db tr f = (es, Some err) \<Longrightarrow>
     runMigrations_loop w db tr (f # fs) = ([(f, es)], Some err)"
  by simp

lemma loop_append:
  "runMigrations_loop w db tr (pre @ post) =
     (case runMigrations_loop w db tr pre of
        (s1, Some err) \<Rightarrow> (s1, Some err)
      | (s1, None) \<Rightarrow>
          (case runMigrations_loop w db (tr @ events_of s1) post of
             (s2, res) \<Rightarrow> (s1 @ s2, res)))"
  by (induction pre arbitrary: tr)
     (auto simp: events_of_def split: prod.splits option.splits)

lemma loop_files_prefix:
  "prefix (map fst (fst (runMigrations_loop w db tr files))) files"
proof (induction files arbitrary: tr)
  case Nil
  show ?case by simp
next
  case (Cons f files)
  obtain es r where b: "runMigrations_body w db tr f = (es, r)"
    by (cases "runMigrations_body w db tr f")
  show ?case
  proof (cases r)
    case None
    with b Cons [of "tr @ es"] show ?thesis
      by (simp add: loop_Cons_None del: runMigrations_loop.simps)
  next
    case (Some err)
    with b show ?thesis by simp
  qed
qed

lemma loop_files_all:
  "snd (runMigrations_loop w db tr files) = None \<Longrightarrow>
     map fst (fst (runMigrations_loop w db tr files)) = files"
proof (induction files arbitrary: tr)
  case Nil
  show ?case by simp
next
  case (Cons f files)
  obtain es r where b: "runMigrations_body w db tr f = (es, r)"
    by (cases "runMigrations_body w db tr f")
  show ?case
  proof (cases r)
    case None
    with b Cons.prems Cons.IH [of "tr @ es"] show ?thesis
      by (simp add: loop_Cons_None del: runMigrations_loop.simps)
  next
    case (Some err)
    with b Cons.prems show ?thesis by simp
  qed
qed

lemma loop_names_subset:
  "fst ` set (fst (runMigrations_loop w db tr files)) \<subseteq> set files"
  using loop_files_prefix [of w db tr files] 
  by (metis set_map set_mono_prefix)

lemma events_for_append: "events_for n (a @ b) = events_for n a @ events_for n b"
  by (simp add: events_for_def)

lemma events_for_absent:
  "n \<notin> Name ` fst ` set steps \<Longrightarrow> events_for n steps = []"
  by (force simp: events_for_def filter_empty_conv)

lemma events_for_loop_absent:
  "n \<notin> Name ` set files \<Longrightarrow> events_for n (fst (runMigrations_loop w db tr files)) = []"
  using loop_names_subset [of w db tr files] by (intro events_for_absent) blast


lemma body_skipped:
  "IsDir f \<or> \<not> strings_HasSuffix (Name f) ''.sql'' \<Longrightarrow>
     runMigrations_body w db tr f = ([], None)"
  by (auto simp: runMigrations_body_def)

lemma body_recorded:
  "\<not> IsDir f \<Longrightarrow> strings_HasSuffix (Name f) ''.sql'' \<Longrightarrow>
   db_Scan_uint8 w db tr (hasRun_sql (Name f)) = Scanned 1 \<Longrightarrow>
     runMigrations_body w db tr f = ([QueryRow (hasRun_sql (Name f))], None)"
  by (simp add: runMigrations_body_def)


lemma body_pending:
  assumes "\<not> IsDir f" and "strings_HasSuffix (Name f) ''.sql''"
    and "unknown_error (db_Scan_uint8 w db tr (hasRun_sql (Name f))) = None"
    and "scan_dest 0 (db_Scan_uint8 w db tr (hasRun_sql (Name f))) \<noteq> 1"
  shows "runMigrations_body w db tr f =
     (let q = QueryRow (hasRun_sql (Name f));
          path = migrationDir @ Name f
      in (case os_ReadFile w (tr @ [q]) path of
            Inl err \<Rightarrow> ([q, ReadFile path], Some err)
          | Inr content \<Rightarrow>
              (case db_Exec w db (tr @ [q, ReadFile path]) content of
                 Some err \<Rightarrow> ([q, ReadFile path, Exec content], Some err)
               | None \<Rightarrow>
                   (let ins = insert_sql (Name f)
                                (time_Now_Unix w (tr @ [q, ReadFile path, Exec content]))
                    in (case db_AsyncInsert w db (tr @ [q, ReadFile path, Exec content]) ins
                               False of
                          Some err \<Rightarrow>
                            ([q, ReadFile path, Exec content, AsyncInsert ins False], Some err)
                        | None \<Rightarrow>
                            ([q, ReadFile path, Exec content, AsyncInsert ins False,
                              Stdout (''Successfully migrated: '' @ Name f @ [newline])],
                             None))))))"
  using assms
  by (simp add: runMigrations_body_def Let_def split: sum.splits option.splits)

lemma events_for_Cons:
  "events_for n ((f, es) # steps) = (if Name f = n then es else []) @ events_for n steps"
  by (simp add: events_for_def)

lemma HasSuffix_suffix: "strings_HasSuffix s suf \<longleftrightarrow> suffix suf s"
proof
  assume "strings_HasSuffix s suf"
  then have "s = take (length s - length suf) s @ suf"
    by (metis append_take_drop_id strings_HasSuffix_def)
  then show "suffix suf s" by (metis suffixI)
next
  assume "suffix suf s"
  then obtain p where "s = p @ suf" by (auto simp: suffix_def)
  then show "strings_HasSuffix s suf" by (simp add: strings_HasSuffix_def)
qed

lemma spec_processing_skipped:
  "IsDir f \<or> \<not> strings_HasSuffix (Name f) ''.sql'' \<Longrightarrow> spec_processing w db h f = []"
  by (simp add: spec_processing_def HasSuffix_suffix)

lemma body_None_spec:
  assumes "runMigrations_body w db tr f = (es, None)"
  shows "es = spec_processing w db tr f"
proof (cases "IsDir f \<or> \<not> strings_HasSuffix (Name f) ''.sql''")
  case True
  with assms body_skipped [OF True, of w db tr] show ?thesis
    by (simp add: spec_processing_skipped)
next
  case False
  then have cand: "\<not> IsDir f" "strings_HasSuffix (Name f) ''.sql''" by simp_all
  show ?thesis
  proof (cases "unknown_error (db_Scan_uint8 w db tr (hasRun_sql (Name f)))")
    case (Some err)
    with assms cand show ?thesis
      by (simp add: runMigrations_body_def)
  next
    case None
    show ?thesis
    proof (cases "db_Scan_uint8 w db tr (hasRun_sql (Name f)) = Scanned 1")
      case True
      with assms cand show ?thesis
        using body_recorded [OF cand True]
        by (simp add: spec_processing_def HasSuffix_suffix [symmetric] hasRun_sql_def
            quote_def)
    next
      case False
      then have ne: "scan_dest 0 (db_Scan_uint8 w db tr (hasRun_sql (Name f))) \<noteq> 1"
        by (cases "db_Scan_uint8 w db tr (hasRun_sql (Name f))") simp_all
      from assms have "es = spec_processing w db tr f"
        unfolding body_pending [OF cand None ne]
        using cand False
        by (auto simp: Let_def spec_processing_def HasSuffix_suffix [symmetric]
            hasRun_sql_def migrationDir_def insert_sql_def quote_def newline_def
            split: sum.splits option.splits)
      then show ?thesis .
    qed
  qed
qed

lemma events_of_Cons: "events_of ((f, es) # steps) = es @ events_of steps"
  by (simp add: events_of_def)

lemma loop_spec:
  assumes "runMigrations_loop w db tr files = (steps, r)"
    and "Suc i < length steps \<or> (r = None \<and> i < length steps)"
  shows "steps ! i =
           (files ! i, spec_processing w db (tr @ events_of (take i steps)) (files ! i))"
  using assms
proof (induction files arbitrary: tr steps i)
  case Nil
  then show ?case by simp
next
  case (Cons f files)
  obtain es r0 where b: "runMigrations_body w db tr f = (es, r0)"
    by (cases "runMigrations_body w db tr f")
  show ?case
  proof (cases r0)
    case (Some err)
    with b Cons.prems show ?thesis
      by (auto simp: loop_Cons_Some simp del: runMigrations_loop.simps)
  next
    case None
    obtain rest r' where l': "runMigrations_loop w db (tr @ es) files = (rest, r')"
      by (cases "runMigrations_loop w db (tr @ es) files")
    have s: "steps = (f, es) # rest" and "r' = r"
      using b None Cons.prems(1) l'
      by (auto simp: loop_Cons_None simp del: runMigrations_loop.simps)
    with l' have l: "runMigrations_loop w db (tr @ es) files = (rest, r)"
      by simp
    have e: "es = spec_processing w db tr f"
      using b None by (simp add: body_None_spec)
    show ?thesis
    proof (cases i)
      case 0
      with s e show ?thesis by (simp add: events_of_def)
    next
      case (Suc j)
      with Cons.prems(2) s have "Suc j < length rest \<or> (r = None \<and> j < length rest)"
        by auto
      from Cons.IH [OF l this] Suc s show ?thesis
        by (simp add: events_of_Cons)
    qed
  qed
qed

lemma runMigrations_unfold:
  "ioutil_ReadDir w tr migrationDir = Inr files \<Longrightarrow>
   runMigrations w db tr =
     (tr @ [ReadDir migrationDir]
        @ events_of (fst (runMigrations_loop w db (tr @ [ReadDir migrationDir]) files)),
      case snd (runMigrations_loop w db (tr @ [ReadDir migrationDir]) files) of
        None \<Rightarrow> Ok | Some err \<Rightarrow> Failed err)"
  by (simp add: runMigrations_def Let_def split: prod.splits option.splits)

subsection \<open>Facts about the other functions\<close>

lemma getDbConn_shape:
  "\<exists>opts.
     Addr opts =
       [if os_Getenv env ''DB_ADDR'' = [] then os_Getenv env ''DB_LOCAL_ADDR''
        else os_Getenv env ''DB_ADDR'']
     \<and> Database (Auth opts) =
         (if os_Getenv env ''DB_NAME'' = [] then ''logme'' else os_Getenv env ''DB_NAME'')
         @ (if isTest then ''_test'' else [])
     \<and> getDbConn w env tr isTest =
         (if (if os_Getenv env ''DB_ADDR'' = [] then os_Getenv env ''DB_LOCAL_ADDR''
              else os_Getenv env ''DB_ADDR'') = []
          then (tr, Inl config_error)
          else case clickhouse_Open w tr opts of
                 Some err \<Rightarrow> (tr @ [Open opts], Inl err)
               | None \<Rightarrow> (tr @ [Open opts], Inr opts))"
proof -
  define addr where "addr =
    (if os_Getenv env ''DB_ADDR'' = [] then os_Getenv env ''DB_LOCAL_ADDR''
     else os_Getenv env ''DB_ADDR'')"
  define dbName where "dbName =
    (if os_Getenv env ''DB_NAME'' = [] then ''logme'' else os_Getenv env ''DB_NAME'')"
  define auth0 where "auth0 =
    \<lparr>Database = dbName @ (if isTest then ''_test'' else []), Username = [], Password = []\<rparr>"
  define auth1 where "auth1 =
    (if os_Getenv env ''DB_USER'' \<noteq> [] then auth0\<lparr>Username := os_Getenv env ''DB_USER''\<rparr>
     else auth0)"
  define auth2 where "auth2 =
    (if os_Getenv env ''DB_PASS'' \<noteq> [] then auth1\<lparr>Password := os_Getenv env ''DB_PASS''\<rparr>
     else auth1)"
  define opts where "opts =
    \<lparr>Addr = [addr], Auth = auth2, Compression = CompressionLZ4,
     Settings = [(''max_execution_time'', 60)]\<rparr>"
  have shape: "getDbConn w env tr isTest =
         (if addr = [] then (tr, Inl config_error)
          else case clickhouse_Open w tr opts of
                 Some err \<Rightarrow> (tr @ [Open opts], Inl err)
               | None \<Rightarrow> (tr @ [Open opts], Inr opts))"
    unfolding getDbConn_def Let_def addr_def dbName_def auth0_def auth1_def auth2_def opts_def
    by (rule refl)
  have "Database auth1 = Database auth0" by (simp add: auth1_def)
  moreover have "Database auth2 = Database auth1" by (simp add: auth2_def)
  moreover have "Database auth0 = dbName @ (if isTest then ''_test'' else [])"
    by (simp only: auth0_def auth.simps)
  ultimately have db: "Database (Auth opts) = dbName @ (if isTest then ''_test'' else [])"
    by (simp only: opts_def options.simps)
  have ad: "Addr opts = [addr]" by (simp only: opts_def options.simps)
  from shape db ad show ?thesis
    unfolding addr_def dbName_def by blast
qed

lemma getDbConn_trace:
  "fst (getDbConn w env tr isTest) = tr
   \<or> (\<exists>opts. fst (getDbConn w env tr isTest) = tr @ [Open opts])"
proof -
  obtain opts where "getDbConn w env tr isTest =
         (if (if os_Getenv env ''DB_ADDR'' = [] then os_Getenv env ''DB_LOCAL_ADDR''
              else os_Getenv env ''DB_ADDR'') = []
          then (tr, Inl config_error)
          else case clickhouse_Open w tr opts of
                 Some err \<Rightarrow> (tr @ [Open opts], Inl err)
               | None \<Rightarrow> (tr @ [Open opts], Inr opts))"
    using getDbConn_shape [of env isTest w tr] by blast
  then show ?thesis
    by (cases "clickhouse_Open w tr opts") (simp_all split: if_splits)
qed

lemma createMigrationsTable_prefix:
  "prefix (tr @ [QueryRow showTables_sql]) (fst (createMigrationsTable w db tr))"
  by (simp add: createMigrationsTable_def Let_def split: option.splits)

lemma runMigrations_prefix:
  "prefix (tr @ [ReadDir migrationDir]) (fst (runMigrations w db tr))"
  by (simp add: runMigrations_def Let_def split: sum.splits prod.splits option.splits)

lemma migrate_prefix: "prefix tr (fst (migrate w env tr isTest))"
proof -
  obtain tr1 r where g: "getDbConn w env tr isTest = (tr1, r)"
    by (cases "getDbConn w env tr isTest")
  have p1: "prefix tr tr1"
    using getDbConn_trace [of w env tr isTest] g by auto
  show ?thesis
  proof (cases r)
    case (Inl err)
    with g p1 show ?thesis by (simp add: migrate_def)
  next
    case (Inr db)
    obtain tr2 res where c: "createMigrationsTable w db tr1 = (tr2, res)"
      by (cases "createMigrationsTable w db tr1")
    have p2: "prefix tr1 tr2"
      using createMigrationsTable_prefix [of tr1 w db] c by (auto dest: append_prefixD)
    have p3: "prefix tr2 (fst (runMigrations w db tr2))"
      using runMigrations_prefix [of tr2 w db] by (auto dest: append_prefixD)
    from g Inr c p1 p2 p3 show ?thesis
      by (cases res) (auto simp: migrate_def)
  qed
qed

lemma action_prefix: "prefix tr (fst (action w env tr cmd))"
  by (cases cmd)
     (simp_all add: migrate_prefix up_def down_def list_cmd_def test_def
        split: prod.splits option.splits)

lemmas sample_simps =
  sample_world_def sample_db_def sample_content_def sample_entries_def
  runMigrations_body_def strings_HasSuffix_def hasRun_sql_def insert_sql_def migrationDir_def
  quote_def newline_def show_int_def show_nat.simps digit_char_def events_of_def events_for_def
  errors_Is_def

lemma events_for_split:
  assumes "distinct (map Name (pre @ F # post))"
  shows "events_for (Name F) (fst (runMigrations_loop w db tr (pre @ F # post))) =
           (case runMigrations_loop w db tr pre of
              (s1, Some err) \<Rightarrow> []
            | (s1, None) \<Rightarrow> fst (runMigrations_body w db (tr @ events_of s1) F))"
proof -
  obtain s1 r1 where pre: "runMigrations_loop w db tr pre = (s1, r1)"
    by (cases "runMigrations_loop w db tr pre")
  have n1: "Name F \<notin> Name ` set pre" and n2: "Name F \<notin> Name ` set post"
    using assms by auto
  have e1: "events_for (Name F) s1 = []"
    using events_for_loop_absent [OF n1, of w db tr] pre by simp
  show ?thesis
  proof (cases r1)
    case (Some err)
    with pre e1 show ?thesis by (simp add: loop_append [of w db tr pre])
  next
    case None
    obtain es r where body: "runMigrations_body w db (tr @ events_of s1) F = (es, r)"
      by (cases "runMigrations_body w db (tr @ events_of s1) F")
    have e2: "events_for (Name F) (fst (runMigrations_loop w db (tr @ events_of s1 @ es) post)) = []"
      using events_for_loop_absent [OF n2] by simp
    show ?thesis
    proof (cases r)
      case None
      with \<open>r1 = None\<close> pre body e1 e2 show ?thesis
        by (simp add: loop_append [of w db tr pre] loop_Cons_None events_for_append
            events_for_Cons del: runMigrations_loop.simps split: prod.splits)
    next
      case (Some err)
      with \<open>r1 = None\<close> pre body e1 show ?thesis
        by (simp add: loop_append [of w db tr pre] loop_Cons_Some events_for_append
            events_for_Cons events_for_def del: runMigrations_loop.simps)
    qed
  qed
qed

section \<open>The claims\<close>




text \<open>
  C2. A migration file \<open>F\<close> for which the ledger lookup answers the value 1 (a record exists)
  is skipped: its iteration issues the lookup and nothing else, so the run has no statement
  execution and no ledger insert for \<open>F\<close> (and no event at all for \<open>F\<close> when an earlier file
  ended the run).
\<close>


theorem recorded_file_not_rerun:
  assumes names: "distinct (map Name (pre @ F # post))"
    and cand: "\<not> IsDir F" "strings_HasSuffix (Name F) ''.sql''"
    and recorded: "db_Scan_uint8 w db (tr @ events_of (fst (runMigrations_loop w db tr pre)))
                     (hasRun_sql (Name F)) = Scanned 1"
  shows "runMigrations_body w db (tr @ events_of (fst (runMigrations_loop w db tr pre))) F =
           ([QueryRow (hasRun_sql (Name F))], None)
         \<and> events_for (Name F) (fst (runMigrations_loop w db tr (pre @ F # post))) =
           (if snd (runMigrations_loop w db tr pre) = None
            then [QueryRow (hasRun_sql (Name F))] else [])
         \<and> execs (events_for (Name F) (fst (runMigrations_loop w db tr (pre @ F # post)))) = []
         \<and> inserts (events_for (Name F) (fst (runMigrations_loop w db tr (pre @ F # post)))) = []"
proof -
  obtain s1 r1 where pre: "runMigrations_loop w db tr pre = (s1, r1)"
    by (cases "runMigrations_loop w db tr pre")
  have body: "runMigrations_body w db (tr @ events_of s1) F =
                ([QueryRow (hasRun_sql (Name F))], None)"
    using body_recorded [OF cand] recorded pre by simp
  then have "events_for (Name F) (fst (runMigrations_loop w db tr (pre @ F # post))) =
           (if snd (runMigrations_loop w db tr pre) = None
            then [QueryRow (hasRun_sql (Name F))] else [])"
    using pre by (cases r1) (simp_all add: events_for_split [OF names])
  with body pre show ?thesis
    by (simp add: execs_def inserts_def)
qed

theorem recorded_file_not_rerun_witness:
  "events_for ''001_init.sql''
     (fst (runMigrations_loop sample_world sample_db [ReadDir migrationDir]
        ([] @ \<lparr>Name = ''001_init.sql'', IsDir = False\<rparr>
         # [\<lparr>Name = ''002_add_index.sql'', IsDir = False\<rparr>]))) =
     [QueryRow (hasRun_sql ''001_init.sql'')]
   \<and> execs (events_for ''001_init.sql''
     (fst (runMigrations_loop sample_world sample_db [ReadDir migrationDir]
        ([] @ \<lparr>Name = ''001_init.sql'', IsDir = False\<rparr>
         # [\<lparr>Name = ''002_add_index.sql'', IsDir = False\<rparr>])))) = []
   \<and> inserts (events_for ''001_init.sql''
     (fst (runMigrations_loop sample_world sample_db [ReadDir migrationDir]
        ([] @ \<lparr>Name = ''001_init.sql'', IsDir = False\<rparr>
         # [\<lparr>Name = ''002_add_index.sql'', IsDir = False\<rparr>])))) = []"
proof -
  let ?F = "\<lparr>Name = ''001_init.sql'', IsDir = False\<rparr>"
  let ?post = "[\<lparr>Name = ''002_add_index.sql'', IsDir = False\<rparr>]"
  let ?tr = "[ReadDir migrationDir]"
  have 1: "distinct (map Name ([] @ ?F # ?post))" by simp
  have 2: "\<not> IsDir ?F" by simp
  have 3: "strings_HasSuffix (Name ?F) ''.sql''" by (simp add: strings_HasSuffix_def)
  have 4: "db_Scan_uint8 sample_world sample_db
             (?tr @ events_of (fst (runMigrations_loop sample_world sample_db ?tr [])))
             (hasRun_sql (Name ?F)) = Scanned 1"
    by (simp add: sample_world_def)
  show ?thesis
    using recorded_file_not_rerun [OF 1 2 3 4]
    by (simp add: sample_simps execs_def inserts_def)
qed

text \<open>
  C3. \<^verbatim>\<open>runMigrations\<close> walks the directory listing in lexicographic (bytewise) order of the
  file names: the files it iterates on are the entries sorted by name, the iterations it
  runs are on an initial segment of them (all of them when it returns nil), in that order,
  and its trace is the events of these iterations, one iteration after the other. Every
  iteration but the last, and the last one too when the run returns nil, issued exactly
  the events that the processing of its file asks for at the trace where the iteration
  began: nothing for a skipped entry, the lookup for a migration that has run, and for a
  pending one the lookup, the read, the execution of the content read, the ledger insert
  of the file name with the Unix time, and the notification. So a file is processed in
  full, ledger record and notification included, before the first event of the next one.
\<close>

theorem migrations_in_filename_order:
  assumes listing: "os_Readdir w tr ''internal/logme/migrations/'' = Inr entries"
  shows "let files = sort_key Name entries;
             tr1 = tr @ [ReadDir ''internal/logme/migrations/''];
             steps = fst (runMigrations_loop w db tr1 files)
         in mset files = mset entries
            \<and> sorted (map Name files)
            \<and> prefix (map fst steps) files
            \<and> sorted (map (Name \<circ> fst) steps)
            \<and> fst (runMigrations w db tr) = tr1 @ concat (map snd steps)
            \<and> (\<forall>i. Suc i < length steps \<longrightarrow>
                  steps ! i =
                    (files ! i,
                     spec_processing w db (tr1 @ concat (map snd (take i steps))) (files ! i)))
            \<and> (snd (runMigrations w db tr) = Ok \<longrightarrow>
                  map fst steps = files
                  \<and> (\<forall>i<length files.
                        steps ! i =
                          (files ! i,
                           spec_processing w db (tr1 @ concat (map snd (take i steps)))
                             (files ! i))))"
proof -
  define files where "files = sort_key Name entries"
  define tr1 where "tr1 = tr @ [ReadDir ''internal/logme/migrations/'']"
  define steps where "steps = fst (runMigrations_loop w db tr1 files)"
  obtain r where loop: "runMigrations_loop w db tr1 files = (steps, r)"
    unfolding steps_def by (cases "runMigrations_loop w db tr1 files") simp
  have rd: "ioutil_ReadDir w tr migrationDir = Inr files"
    using listing by (simp add: ioutil_ReadDir_def files_def migrationDir_def)
  have tr1: "tr @ [ReadDir migrationDir] = tr1"
    by (simp add: tr1_def migrationDir_def)
  have 1: "mset files = mset entries" by (simp add: files_def)
  have 2: "sorted (map Name files)" by (simp add: files_def)
  have 3: "prefix (map fst steps) files"
    unfolding steps_def by (rule loop_files_prefix)
  then obtain rest where "map Name files = map (Name \<circ> fst) steps @ rest"
    by (auto simp: prefix_def)
  with 2 have 4: "sorted (map (Name \<circ> fst) steps)"
    by (simp add: sorted_append)
  have 5: "fst (runMigrations w db tr) = tr1 @ concat (map snd steps)"
    by (simp add: runMigrations_unfold [OF rd] tr1 steps_def events_of_def)
  have 6: "\<forall>i. Suc i < length steps \<longrightarrow>
                  steps ! i =
                    (files ! i,
                     spec_processing w db (tr1 @ concat (map snd (take i steps))) (files ! i))"
    using loop_spec [OF loop] by (simp add: events_of_def)
  have 7: "snd (runMigrations w db tr) = Ok \<longrightarrow>
                  map fst steps = files
                  \<and> (\<forall>i<length files.
                        steps ! i =
                          (files ! i,
                           spec_processing w db (tr1 @ concat (map snd (take i steps)))
                             (files ! i)))"
  proof
    assume "snd (runMigrations w db tr) = Ok"
    then have none: "r = None"
      using loop by (simp add: runMigrations_unfold [OF rd] tr1 split: option.splits)
    with loop have all: "map fst steps = files"
      using loop_files_all [of w db tr1 files] by simp
    then have len: "length steps = length files"
      by (metis length_map)
    from loop_spec [OF loop] none len
    have "\<forall>i<length files.
                        steps ! i =
                          (files ! i,
                           spec_processing w db (tr1 @ concat (map snd (take i steps)))
                             (files ! i))"
      by (simp add: events_of_def)
    with all show "map fst steps = files
                  \<and> (\<forall>i<length files.
                        steps ! i =
                          (files ! i,
                           spec_processing w db (tr1 @ concat (map snd (take i steps)))
                             (files ! i)))"
      by simp
  qed
  from 1 2 3 4 5 6 7 show ?thesis
    unfolding Let_def files_def [symmetric] tr1_def [symmetric] steps_def [symmetric]
    by blast
qed

theorem migrations_in_filename_order_witness:
  "os_Readdir first_run_world [] ''internal/logme/migrations/'' = Inr sample_entries
   \<and> snd (runMigrations first_run_world sample_db []) = Ok
   \<and> fst (runMigrations_loop first_run_world sample_db
             ([] @ [ReadDir ''internal/logme/migrations/'']) (sort_key Name sample_entries)) ! 0 =
       (\<lparr>Name = ''001_init.sql'', IsDir = False\<rparr>,
        [QueryRow (''SELECT 1 FROM migrations WHERE name = '' @ [CHR 0x27] @ ''001_init.sql''
                   @ [CHR 0x27]),
         ReadFile ''internal/logme/migrations/001_init.sql'',
         Exec ''ALTER TABLE logs ADD INDEX i (level) TYPE set(8) GRANULARITY 1'',
         AsyncInsert (''INSERT INTO migrations (name, dt) VALUES ('' @ [CHR 0x27]
                      @ ''001_init.sql'' @ [CHR 0x27] @ '', 1700000000)'') False,
         Stdout (''Successfully migrated: 001_init.sql'' @ [CHR 0x0A])])
   \<and> fst (runMigrations_loop first_run_world sample_db
             ([] @ [ReadDir ''internal/logme/migrations/'']) (sort_key Name sample_entries)) ! 1 =
       (\<lparr>Name = ''002_add_index.sql'', IsDir = False\<rparr>,
        [QueryRow (''SELECT 1 FROM migrations WHERE name = '' @ [CHR 0x27]
                   @ ''002_add_index.sql'' @ [CHR 0x27]),
         ReadFile ''internal/logme/migrations/002_add_index.sql'',
         Exec ''ALTER TABLE logs ADD INDEX i (level) TYPE set(8) GRANULARITY 1'',
         AsyncInsert (''INSERT INTO migrations (name, dt) VALUES ('' @ [CHR 0x27]
                      @ ''002_add_index.sql'' @ [CHR 0x27] @ '', 1700000000)'') False,
         Stdout (''Successfully migrated: 002_add_index.sql'' @ [CHR 0x0A])])"
proof -
  let ?w = first_run_world
  let ?tr1 = "[] @ [ReadDir ''internal/logme/migrations/'']"
  let ?files = "sort_key Name sample_entries"
  let ?steps = "fst (runMigrations_loop ?w sample_db ?tr1 ?files)"
  have h: "os_Readdir ?w [] ''internal/logme/migrations/'' = Inr sample_entries"
    by (simp add: first_run_world_def good_world_def sample_world_def)
  have ok: "snd (runMigrations ?w sample_db []) = Ok"
    by (simp add: runMigrations_def ioutil_ReadDir_def first_run_world_def good_world_def
        sample_entries_def sample_world_def sample_db_def sample_content_def
        runMigrations_body_def strings_HasSuffix_def hasRun_sql_def insert_sql_def
        migrationDir_def errors_Is_def)
  have f0: "0 < length ?files" and f1: "1 < length ?files"
    and n0: "?files ! 0 = \<lparr>Name = ''001_init.sql'', IsDir = False\<rparr>"
    and n1: "?files ! 1 = \<lparr>Name = ''002_add_index.sql'', IsDir = False\<rparr>"
    by (simp_all add: sample_entries_def)
  have spec0: "spec_processing ?w sample_db h0 \<lparr>Name = ''001_init.sql'', IsDir = False\<rparr> =
        [QueryRow (''SELECT 1 FROM migrations WHERE name = '' @ [CHR 0x27] @ ''001_init.sql''
                   @ [CHR 0x27]),
         ReadFile ''internal/logme/migrations/001_init.sql'',
         Exec ''ALTER TABLE logs ADD INDEX i (level) TYPE set(8) GRANULARITY 1'',
         AsyncInsert (''INSERT INTO migrations (name, dt) VALUES ('' @ [CHR 0x27]
                      @ ''001_init.sql'' @ [CHR 0x27] @ '', 1700000000)'') False,
         Stdout (''Successfully migrated: 001_init.sql'' @ [CHR 0x0A])]" for h0
    by (simp add: spec_processing_def HasSuffix_suffix [symmetric] strings_HasSuffix_def
        first_run_world_def good_world_def sample_world_def sample_content_def migrationDir_def
        show_int_def show_nat.simps digit_char_def)
  have spec1: "spec_processing ?w sample_db h0 \<lparr>Name = ''002_add_index.sql'', IsDir = False\<rparr> =
        [QueryRow (''SELECT 1 FROM migrations WHERE name = '' @ [CHR 0x27]
                   @ ''002_add_index.sql'' @ [CHR 0x27]),
         ReadFile ''internal/logme/migrations/002_add_index.sql'',
         Exec ''ALTER TABLE logs ADD INDEX i (level) TYPE set(8) GRANULARITY 1'',
         AsyncInsert (''INSERT INTO migrations (name, dt) VALUES ('' @ [CHR 0x27]
                      @ ''002_add_index.sql'' @ [CHR 0x27] @ '', 1700000000)'') False,
         Stdout (''Successfully migrated: 002_add_index.sql'' @ [CHR 0x0A])]" for h0
    by (simp add: spec_processing_def HasSuffix_suffix [symmetric] strings_HasSuffix_def
        first_run_world_def good_world_def sample_world_def sample_content_def migrationDir_def
        show_int_def show_nat.simps digit_char_def)
  from migrations_in_filename_order [OF h, of sample_db, unfolded Let_def] ok
  have all: "\<forall>i<length ?files. ?steps ! i =
        (?files ! i, spec_processing ?w sample_db (?tr1 @ concat (map snd (take i ?steps)))
           (?files ! i))"
    by blast
  from all [rule_format, OF f0] have s0: "?steps ! 0 =
        (?files ! 0, spec_processing ?w sample_db (?tr1 @ concat (map snd (take 0 ?steps)))
           (?files ! 0))"
    .
  from all [rule_format, OF f1] have s1: "?steps ! 1 =
        (?files ! 1, spec_processing ?w sample_db (?tr1 @ concat (map snd (take 1 ?steps)))
           (?files ! 1))"
    .
  from s0 have t0: "?steps ! 0 = (\<lparr>Name = ''001_init.sql'', IsDir = False\<rparr>,
        [QueryRow (''SELECT 1 FROM migrations WHERE name = '' @ [CHR 0x27] @ ''001_init.sql''
                   @ [CHR 0x27]),
         ReadFile ''internal/logme/migrations/001_init.sql'',
         Exec ''ALTER TABLE logs ADD INDEX i (level) TYPE set(8) GRANULARITY 1'',
         AsyncInsert (''INSERT INTO migrations (name, dt) VALUES ('' @ [CHR 0x27]
                      @ ''001_init.sql'' @ [CHR 0x27] @ '', 1700000000)'') False,
         Stdout (''Successfully migrated: 001_init.sql'' @ [CHR 0x0A])])"
    unfolding n0 spec0 .
  from s1 have t1: "?steps ! 1 = (\<lparr>Name = ''002_add_index.sql'', IsDir = False\<rparr>,
        [QueryRow (''SELECT 1 FROM migrations WHERE name = '' @ [CHR 0x27]
                   @ ''002_add_index.sql'' @ [CHR 0x27]),
         ReadFile ''internal/logme/migrations/002_add_index.sql'',
         Exec ''ALTER TABLE logs ADD INDEX i (level) TYPE set(8) GRANULARITY 1'',
         AsyncInsert (''INSERT INTO migrations (name, dt) VALUES ('' @ [CHR 0x27]
                      @ ''002_add_index.sql'' @ [CHR 0x27] @ '', 1700000000)'') False,
         Stdout (''Successfully migrated: 002_add_index.sql'' @ [CHR 0x0A])])"
    unfolding n1 spec1 .
  show ?thesis
    by (intro conjI) (rule h, rule ok, rule t0, rule t1)
qed

text \<open>
  C4. When the execution of the content of a migration file \<open>F\<close> fails, the run returns that
  error at once. In a run of \<^verbatim>\<open>runMigrations\<close> on the listing \<open>pre @ F # post\<close> that reaches
  \<open>F\<close>, finds it pending and reads it, the loop ends in \<open>F\<close>'s iteration with the error of
  \<^verbatim>\<open>Exec\<close>; the events of that iteration are the lookup, the read and the failed
  execution, so there is no ledger insert for \<open>F\<close> (the inserts of the run are those of the
  earlier files); no iteration is run for a file after \<open>F\<close>; and \<^verbatim>\<open>runMigrations\<close> returns
  the error with the failed execution as its last event.
\<close>

theorem failed_execution_halts_run:
  fixes w :: world and db :: options and tr :: trace
    and pre post :: "file_info list" and F :: file_info and content :: string
    and steps0 :: "(file_info \<times> event list) list"
  defines "tr1 \<equiv> tr @ [ReadDir migrationDir]"
  defines "h \<equiv> tr1 @ events_of steps0"
  defines "lookup \<equiv> QueryRow (hasRun_sql (Name F))"
  defines "rd \<equiv> ReadFile (migrationDir @ Name F)"
  assumes listing: "ioutil_ReadDir w tr migrationDir = Inr (pre @ F # post)"
    and reach: "runMigrations_loop w db tr1 pre = (steps0, None)"
    and cand: "\<not> IsDir F" "strings_HasSuffix (Name F) ''.sql''"
    and pending:
      "unknown_error (db_Scan_uint8 w db h (hasRun_sql (Name F))) = None"
      "scan_dest 0 (db_Scan_uint8 w db h (hasRun_sql (Name F))) \<noteq> 1"
    and read: "os_ReadFile w (h @ [lookup]) (migrationDir @ Name F) = Inr content"
    and exec: "db_Exec w db (h @ [lookup, rd]) content = Some err"
  shows "runMigrations_loop w db tr1 (pre @ F # post) =
           (steps0 @ [(F, [lookup, rd, Exec content])], Some err)
         \<and> runMigrations w db tr = (h @ [lookup, rd, Exec content], Failed err)
         \<and> inserts (events_of (fst (runMigrations_loop w db tr1 (pre @ F # post)))) =
             inserts (events_of steps0)"
proof -
  have body: "runMigrations_body w db (tr1 @ events_of steps0) F =
                ([lookup, rd, Exec content], Some err)"
    unfolding body_pending [OF cand pending [unfolded h_def]]
    using read exec by (simp add: Let_def h_def lookup_def rd_def)
  have loop: "runMigrations_loop w db tr1 (pre @ F # post) =
           (steps0 @ [(F, [lookup, rd, Exec content])], Some err)"
    using reach body
    by (simp add: loop_append [of w db tr1 pre] loop_Cons_Some del: runMigrations_loop.simps)
  have run: "runMigrations w db tr = (h @ [lookup, rd, Exec content], Failed err)"
    using loop unfolding runMigrations_unfold [OF listing]
    by (simp add: h_def tr1_def events_of_def)
  from loop run show ?thesis
    by (simp add: events_of_def inserts_def lookup_def rd_def)
qed

theorem failed_execution_halts_run_witness:
  "runMigrations sample_world sample_db [] =
     ([ReadDir migrationDir,
       QueryRow (hasRun_sql ''001_init.sql''),
       QueryRow (hasRun_sql ''002_add_index.sql''),
       ReadFile ''internal/logme/migrations/002_add_index.sql'',
       Exec ''ALTER TABLE logs ADD INDEX i (level) TYPE set(8) GRANULARITY 1'',
       AsyncInsert (insert_sql ''002_add_index.sql'' 1700000000) False,
       Stdout (''Successfully migrated: 002_add_index.sql'' @ [newline]),
       QueryRow (hasRun_sql ''003_broken.sql''),
       ReadFile ''internal/logme/migrations/003_broken.sql'',
       Exec ''CREATE TABEL t''],
      Failed (ErrorString ''code: 62, syntax error''))"
proof -
  let ?pre = "[\<lparr>Name = ''001_init.sql'', IsDir = False\<rparr>,
               \<lparr>Name = ''002_add_index.sql'', IsDir = False\<rparr>]"
  let ?F = "\<lparr>Name = ''003_broken.sql'', IsDir = False\<rparr>"
  let ?post = "[\<lparr>Name = ''004_later.sql'', IsDir = False\<rparr>,
                \<lparr>Name = ''archive.sql'', IsDir = True\<rparr>,
                \<lparr>Name = ''notes.txt'', IsDir = False\<rparr>]"
  let ?tr1 = "[] @ [ReadDir migrationDir]"
  let ?steps0 =
    "[(\<lparr>Name = ''001_init.sql'', IsDir = False\<rparr>, [QueryRow (hasRun_sql ''001_init.sql'')]),
      (\<lparr>Name = ''002_add_index.sql'', IsDir = False\<rparr>,
       [QueryRow (hasRun_sql ''002_add_index.sql''),
        ReadFile ''internal/logme/migrations/002_add_index.sql'',
        Exec ''ALTER TABLE logs ADD INDEX i (level) TYPE set(8) GRANULARITY 1'',
        AsyncInsert (insert_sql ''002_add_index.sql'' 1700000000) False,
        Stdout (''Successfully migrated: 002_add_index.sql'' @ [newline])])]"
  let ?h = "?tr1 @ events_of ?steps0"
  have 0: "ioutil_ReadDir sample_world [] migrationDir = Inr (?pre @ ?F # ?post)"
    by (simp add: ioutil_ReadDir_def sample_world_def sample_entries_def)
  have 1: "runMigrations_loop sample_world sample_db ?tr1 ?pre = (?steps0, None)"
    by (simp add: sample_simps)
  have 2: "\<not> IsDir ?F" by simp
  have 3: "strings_HasSuffix (Name ?F) ''.sql''" by (simp add: strings_HasSuffix_def)
  have 4: "unknown_error (db_Scan_uint8 sample_world sample_db ?h (hasRun_sql (Name ?F))) = None"
    by (simp add: sample_simps)
  have 5: "scan_dest 0 (db_Scan_uint8 sample_world sample_db ?h (hasRun_sql (Name ?F))) \<noteq> 1"
    by (simp add: sample_simps)
  have 6: "os_ReadFile sample_world (?h @ [QueryRow (hasRun_sql (Name ?F))])
             (migrationDir @ Name ?F) = Inr ''CREATE TABEL t''"
    by (simp add: sample_simps)
  have 7: "db_Exec sample_world sample_db
             (?h @ [QueryRow (hasRun_sql (Name ?F)), ReadFile (migrationDir @ Name ?F)])
             ''CREATE TABEL t'' = Some (ErrorString ''code: 62, syntax error'')"
    by (simp add: sample_simps)
  show ?thesis
    using failed_execution_halts_run [OF 0 1 2 3 4 5 6 7]
    by (simp add: events_of_def migrationDir_def)
qed



text \<open>
  C6. \<^verbatim>\<open>getDbConn\<close> takes the address from \<^verbatim>\<open>DB_ADDR\<close> and, when that yields nothing,
  from \<^verbatim>\<open>DB_LOCAL_ADDR\<close>. It returns the configuration error, with no event issued (so
  before any attempt to open a connection), exactly when both variables are unset, unset
  being what \<^verbatim>\<open>os.Getenv\<close> reports as the empty string; in particular when neither is in
  the environment. Otherwise it opens one connection, to the preferred address and to the
  database \<^verbatim>\<open>DB_NAME\<close>, or \<^verbatim>\<open>logme\<close> when \<^verbatim>\<open>DB_NAME\<close> is unset, with \<^verbatim>\<open>_test\<close> appended in
  test mode, and returns it when the opening succeeds.
\<close>

theorem getDbConn_address_resolution:
  "(getDbConn w env tr isTest = (tr, Inl config_error)
      \<longleftrightarrow> os_Getenv env ''DB_ADDR'' = [] \<and> os_Getenv env ''DB_LOCAL_ADDR'' = [])
   \<and> (env ''DB_ADDR'' = None \<and> env ''DB_LOCAL_ADDR'' = None
      \<longrightarrow> getDbConn w env tr isTest = (tr, Inl config_error))
   \<and> (\<not> (os_Getenv env ''DB_ADDR'' = [] \<and> os_Getenv env ''DB_LOCAL_ADDR'' = [])
      \<longrightarrow> (\<exists>opts. fst (getDbConn w env tr isTest) = tr @ [Open opts]
             \<and> Addr opts =
                 [if os_Getenv env ''DB_ADDR'' \<noteq> [] then os_Getenv env ''DB_ADDR''
                  else os_Getenv env ''DB_LOCAL_ADDR'']
             \<and> Database (Auth opts) =
                 (if os_Getenv env ''DB_NAME'' = [] then ''logme'' else os_Getenv env ''DB_NAME'')
                 @ (if isTest then ''_test'' else [])
             \<and> (clickhouse_Open w tr opts = None
                  \<longrightarrow> snd (getDbConn w env tr isTest) = Inr opts)))"
proof -
  obtain opts where ad: "Addr opts =
       [if os_Getenv env ''DB_ADDR'' = [] then os_Getenv env ''DB_LOCAL_ADDR''
        else os_Getenv env ''DB_ADDR'']"
    and db: "Database (Auth opts) =
         (if os_Getenv env ''DB_NAME'' = [] then ''logme'' else os_Getenv env ''DB_NAME'')
         @ (if isTest then ''_test'' else [])"
    and shape: "getDbConn w env tr isTest =
         (if (if os_Getenv env ''DB_ADDR'' = [] then os_Getenv env ''DB_LOCAL_ADDR''
              else os_Getenv env ''DB_ADDR'') = []
          then (tr, Inl config_error)
          else case clickhouse_Open w tr opts of
                 Some err \<Rightarrow> (tr @ [Open opts], Inl err)
               | None \<Rightarrow> (tr @ [Open opts], Inr opts))"
    using getDbConn_shape [of env isTest w tr] by blast
  have both: "((if os_Getenv env ''DB_ADDR'' = [] then os_Getenv env ''DB_LOCAL_ADDR''
              else os_Getenv env ''DB_ADDR'') = [])
      = (os_Getenv env ''DB_ADDR'' = [] \<and> os_Getenv env ''DB_LOCAL_ADDR'' = [])"
    by simp
  have 1: "(getDbConn w env tr isTest = (tr, Inl config_error))
      = (os_Getenv env ''DB_ADDR'' = [] \<and> os_Getenv env ''DB_LOCAL_ADDR'' = [])"
    unfolding shape both
    by (cases "clickhouse_Open w tr opts") simp_all
  have 2: "env ''DB_ADDR'' = None \<and> env ''DB_LOCAL_ADDR'' = None
      \<longrightarrow> getDbConn w env tr isTest = (tr, Inl config_error)"
    unfolding 1 by (simp add: os_Getenv_def)
  have 3: "\<not> (os_Getenv env ''DB_ADDR'' = [] \<and> os_Getenv env ''DB_LOCAL_ADDR'' = [])
      \<longrightarrow> fst (getDbConn w env tr isTest) = tr @ [Open opts]
          \<and> (clickhouse_Open w tr opts = None
                  \<longrightarrow> snd (getDbConn w env tr isTest) = Inr opts)"
    unfolding shape both
    by (cases "clickhouse_Open w tr opts") simp_all
  have 4: "Addr opts =
                 [if os_Getenv env ''DB_ADDR'' \<noteq> [] then os_Getenv env ''DB_ADDR''
                  else os_Getenv env ''DB_LOCAL_ADDR'']"
    unfolding ad by simp
  have 5: "\<not> (os_Getenv env ''DB_ADDR'' = [] \<and> os_Getenv env ''DB_LOCAL_ADDR'' = [])
      \<longrightarrow> (\<exists>opts. fst (getDbConn w env tr isTest) = tr @ [Open opts]
             \<and> Addr opts =
                 [if os_Getenv env ''DB_ADDR'' \<noteq> [] then os_Getenv env ''DB_ADDR''
                  else os_Getenv env ''DB_LOCAL_ADDR'']
             \<and> Database (Auth opts) =
                 (if os_Getenv env ''DB_NAME'' = [] then ''logme'' else os_Getenv env ''DB_NAME'')
                 @ (if isTest then ''_test'' else [])
             \<and> (clickhouse_Open w tr opts = None
                  \<longrightarrow> snd (getDbConn w env tr isTest) = Inr opts))"
  proof
    assume a: "\<not> (os_Getenv env ''DB_ADDR'' = [] \<and> os_Getenv env ''DB_LOCAL_ADDR'' = [])"
    with 3 have f: "fst (getDbConn w env tr isTest) = tr @ [Open opts]"
      and o: "clickhouse_Open w tr opts = None \<longrightarrow> snd (getDbConn w env tr isTest) = Inr opts"
      by (rule mp [THEN conjunct1], rule mp [THEN conjunct2])
    show "\<exists>opts. fst (getDbConn w env tr isTest) = tr @ [Open opts]
             \<and> Addr opts =
                 [if os_Getenv env ''DB_ADDR'' \<noteq> [] then os_Getenv env ''DB_ADDR''
                  else os_Getenv env ''DB_LOCAL_ADDR'']
             \<and> Database (Auth opts) =
                 (if os_Getenv env ''DB_NAME'' = [] then ''logme'' else os_Getenv env ''DB_NAME'')
                 @ (if isTest then ''_test'' else [])
             \<and> (clickhouse_Open w tr opts = None
                  \<longrightarrow> snd (getDbConn w env tr isTest) = Inr opts)"
      by (rule exI [of _ opts], intro conjI) (rule f, rule 4, rule db, rule o)
  qed
  show ?thesis
    by (intro conjI) (rule 1, rule 2, rule 5)
qed

theorem getDbConn_address_resolution_witness:
  "getDbConn sample_world Map.empty [] True = ([], Inl config_error)
   \<and> (\<exists>opts. fst (getDbConn sample_world [''DB_LOCAL_ADDR'' \<mapsto> ''127.0.0.1:9000''] [] True)
               = [] @ [Open opts]
         \<and> Addr opts = [''127.0.0.1:9000'']
         \<and> Database (Auth opts) = ''logme_test''
         \<and> snd (getDbConn sample_world [''DB_LOCAL_ADDR'' \<mapsto> ''127.0.0.1:9000''] [] True)
             = Inr opts)"
proof -
  have 1: "(Map.empty :: environ) ''DB_ADDR'' = None \<and> (Map.empty :: environ) ''DB_LOCAL_ADDR'' = None"
    by simp
  have 2: "\<not> (os_Getenv [''DB_LOCAL_ADDR'' \<mapsto> ''127.0.0.1:9000''] ''DB_ADDR'' = []
            \<and> os_Getenv [''DB_LOCAL_ADDR'' \<mapsto> ''127.0.0.1:9000''] ''DB_LOCAL_ADDR'' = [])"
    by (simp add: os_Getenv_def)
  have 3: "\<And>opts. clickhouse_Open sample_world [] opts = None"
    by (simp add: sample_world_def)
  from 1 have a: "getDbConn sample_world Map.empty [] True = ([], Inl config_error)"
    using getDbConn_address_resolution [of sample_world Map.empty "[]" True] by blast
  from 2 3 have b: "\<exists>opts. fst (getDbConn sample_world [''DB_LOCAL_ADDR'' \<mapsto> ''127.0.0.1:9000''] [] True)
               = [] @ [Open opts]
         \<and> Addr opts = [''127.0.0.1:9000'']
         \<and> Database (Auth opts) = ''logme_test''
         \<and> snd (getDbConn sample_world [''DB_LOCAL_ADDR'' \<mapsto> ''127.0.0.1:9000''] [] True)
             = Inr opts"
    using getDbConn_address_resolution
      [of sample_world "[''DB_LOCAL_ADDR'' \<mapsto> ''127.0.0.1:9000'']" "[]" True]
    by (simp add: os_Getenv_def)
  from a b show ?thesis by blast
qed




text \<open>
  C8. The commands \<^verbatim>\<open>up\<close>, \<^verbatim>\<open>down\<close> and \<^verbatim>\<open>list\<close> return the error of the command they shell
  out to, and the process then exits with the status of that command. \<^verbatim>\<open>test\<close> does not: it drops the error
  (\<^verbatim>\<open>out, _ := ...\<close>), prints the output and returns nil. In the sample world, where the
  shelled-out command fails with \<^verbatim>\<open>exit status 1\<close>, \<^verbatim>\<open>test\<close> returns nil and the process
  exits with status 0, while its three siblings exit with status 1.
\<close>

theorem test_discards_command_error:
  "test sample_world [DotenvLoad] =
     ([DotenvLoad, Command test_argv, Stdout (''logme_server'' @ [newline])], Ok)
   \<and> snd (main sample_world Map.empty Test) = Exit 0
   \<and> up sample_world [DotenvLoad] =
       ([DotenvLoad, Command up_argv], Failed (ExitError 1 ''exit status 1''))
   \<and> snd (main sample_world Map.empty Up) = Exit 1
   \<and> snd (main sample_world Map.empty Down) = Exit 1
   \<and> snd (main sample_world Map.empty List) = Exit 1"
  by (simp add: test_def up_def down_def list_cmd_def main_def sample_world_def)

text \<open>
  C9. A directory entry that is a directory, or whose name does not end in \<^verbatim>\<open>.sql\<close>, is
  never a migration candidate: its iteration issues no event (no ledger query, no read, no
  execution, no insert), from any trace and whatever its name, and the run has no event for
  it.
\<close>


theorem non_candidate_ignored:
  assumes names: "distinct (map Name files)"
    and entry: "F \<in> set files"
    and skip: "IsDir F \<or> \<not> strings_HasSuffix (Name F) ''.sql''"
  shows "runMigrations_body w db h F = ([], None)
         \<and> events_for (Name F) (fst (runMigrations_loop w db tr files)) = []"
proof -
  obtain pre post where files: "files = pre @ F # post"
    using entry by (auto dest: split_list)
  have "events_for (Name F) (fst (runMigrations_loop w db tr (pre @ F # post))) = []"
    using names unfolding files
    by (simp add: events_for_split body_skipped [OF skip] split: prod.splits option.splits)
  then show ?thesis
    using body_skipped [OF skip] files by simp
qed

theorem non_candidate_ignored_witness:
  "runMigrations_body sample_world sample_db [] \<lparr>Name = ''archive.sql'', IsDir = True\<rparr> = ([], None)
   \<and> events_for ''archive.sql''
        (fst (runMigrations_loop sample_world sample_db [ReadDir migrationDir]
           (sort_key Name sample_entries))) = []
   \<and> events_for ''notes.txt''
        (fst (runMigrations_loop good_world sample_db [ReadDir migrationDir]
           (sort_key Name sample_entries))) = []"
proof -
  have 0: "sort_key Name sample_entries =
     [\<lparr>Name = ''001_init.sql'', IsDir = False\<rparr>,
      \<lparr>Name = ''002_add_index.sql'', IsDir = False\<rparr>,
      \<lparr>Name = ''003_broken.sql'', IsDir = False\<rparr>,
      \<lparr>Name = ''004_later.sql'', IsDir = False\<rparr>,
      \<lparr>Name = ''archive.sql'', IsDir = True\<rparr>,
      \<lparr>Name = ''notes.txt'', IsDir = False\<rparr>]"
    by (simp add: sample_entries_def)
  have 1: "distinct (map Name (sort_key Name sample_entries))"
    unfolding 0 by simp
  have 2: "\<lparr>Name = ''archive.sql'', IsDir = True\<rparr> \<in> set (sort_key Name sample_entries)"
    unfolding 0 by simp
  have 3: "IsDir \<lparr>Name = ''archive.sql'', IsDir = True\<rparr>
           \<or> \<not> strings_HasSuffix (Name \<lparr>Name = ''archive.sql'', IsDir = True\<rparr>) ''.sql''"
    by simp
  have 4: "\<lparr>Name = ''notes.txt'', IsDir = False\<rparr> \<in> set (sort_key Name sample_entries)"
    unfolding 0 by simp
  have 5: "IsDir \<lparr>Name = ''notes.txt'', IsDir = False\<rparr>
           \<or> \<not> strings_HasSuffix (Name \<lparr>Name = ''notes.txt'', IsDir = False\<rparr>) ''.sql''"
    by (simp add: strings_HasSuffix_def)
  show ?thesis
    using non_candidate_ignored [OF 1 2 3, of sample_world sample_db "[]" "[ReadDir migrationDir]"]
      non_candidate_ignored [OF 1 4 5, of good_world sample_db "[]" "[ReadDir migrationDir]"]
    by simp
qed

text \<open>
  C10. Every invocation starts with the attempt to load \<^verbatim>\<open>.env\<close>: it is the first event of
  \<^verbatim>\<open>main\<close> whatever the subcommand. When the load fails, \<^verbatim>\<open>main\<close> logs
  \<^verbatim>\<open>Error loading .env file\<close> and exits with status 1 and nothing else happens: no
  subcommand is dispatched, whatever the process environment holds.
\<close>

theorem dotenv_loaded_first:
  "prefix [DotenvLoad] (fst (main w env cmd))
   \<and> (godotenv_Load w = Inl err \<longrightarrow>
        main w env cmd = ([DotenvLoad, LogFatal ''Error loading .env file''], Exit 1))"
proof -
  have "prefix [DotenvLoad] (fst (main w env cmd))"
  proof (cases "godotenv_Load w")
    case (Inl e)
    then show ?thesis by (simp add: main_def)
  next
    case (Inr vars)
    obtain tr res where a: "action w (vars ++ env) [DotenvLoad] cmd = (tr, res)"
      by (cases "action w (vars ++ env) [DotenvLoad] cmd")
    with action_prefix [of "[DotenvLoad]" w "vars ++ env" cmd]
    have "prefix [DotenvLoad] tr" by simp
    with Inr a show ?thesis
      by (cases res) (auto simp: main_def prefix_def split: error.splits)
  qed
  then show ?thesis by (simp add: main_def)
qed

theorem dotenv_loaded_first_witness:
  "godotenv_Load no_dotenv_world = Inl (ErrorString ''open .env: no such file or directory'')
   \<and> main no_dotenv_world sample_env Migrate =
       ([DotenvLoad, LogFatal ''Error loading .env file''], Exit 1)"
proof -
  have 1: "godotenv_Load no_dotenv_world =
             Inl (ErrorString ''open .env: no such file or directory'')"
    by (simp add: no_dotenv_world_def)
  with dotenv_loaded_first [of no_dotenv_world sample_env Migrate]
  show ?thesis by blast
qed

end
